theory Spec2Isabelle
  imports Complex_Main "HOL-Library.AList"
begin

section \<open>The billing pipeline\<close>

text \<open>
  The pipeline of \<^verbatim>\<open>Introduction_to_Unit_Testing_Dennis_Mutai.py\<close> has three functions,
  \<open>data_extraction\<close>, \<open>data_transformation\<close> and \<open>data_loading\<close>. Each is one line of
  pandas (three for the transformation), so the embedding consists of a model of the
  pandas and Python operations they call, followed by the three functions written over
  it line by line:
  \<^item> Python floats as binary64 values (\<open>pyfloat\<close>), with correctly rounded conversion
    and addition; the sign of zero and the payload of a NaN are not tracked;
  \<^item> \<open>float(str)\<close> as \<open>py_float\<close>, following the grammar CPython accepts;
  \<^item> a column (\<open>Series\<close>) as its dtype and its list of cells, a \<open>DataFrame\<close> as the
    ordered list of its named columns and its row labels;
  \<^item> exceptions as values of \<open>error\<close>;
  \<^item> the objects the functions work on as entries of a heap, since
    \<open>data_transformation\<close> assigns columns of a frame in place.
\<close>

subsection \<open>Errors\<close>

datatype error =
    KeyError string
  | AttributeError
  | ValueError
  | TypeError
  | FileNotFoundError
  | EmptyDataError
  | OSError

subsection \<open>Binary64 floats\<close>

datatype pyfloat = Fin rat | PInf | NInf | NaN

function bit_length :: "int \<Rightarrow> int" where
  "bit_length n = (if n \<le> 0 then 0 else 1 + bit_length (n div 2))"
  by pat_completeness auto
termination
  by (relation "measure nat") auto

declare bit_length.simps [simp del]

definition pow2 :: "int \<Rightarrow> rat" where
  "pow2 k = (if 0 \<le> k then 2 ^ nat k else 1 / 2 ^ nat (- k))"

definition floor_log2 :: "rat \<Rightarrow> int" where
  \<comment> \<open>for \<open>0 < a\<close>: the \<open>e\<close> with \<open>2^e \<le> a < 2^(e+1)\<close>\<close>
  "floor_log2 a =
     (if 1 \<le> a then bit_length \<lfloor>a\<rfloor> - 1
      else - bit_length (\<lceil>1 / a\<rceil> - 1))"

definition round_half_even :: "rat \<Rightarrow> int" where
  "round_half_even x =
     (let f = \<lfloor>x\<rfloor>; r = x - of_int f
      in if r < 1 / 2 then f
         else if 1 / 2 < r then f + 1
         else if even f then f else f + 1)"

definition round64 :: "rat \<Rightarrow> pyfloat" where
  \<comment> \<open>round to nearest, ties to even, 53 bits of precision, gradual underflow below
      \<open>2^-1022\<close>, overflow to infinity from \<open>2^1024\<close>\<close>
  "round64 q =
     (if q = 0 then Fin 0
      else
        let a = \<bar>q\<bar>;
            p = max (floor_log2 a) (- 1022) - 52;
            v = of_int (round_half_even (a / pow2 p)) * pow2 p
        in if pow2 1024 \<le> v then (if 0 < q then PInf else NInf)
           else Fin (if 0 < q then v else - v))"

fun fadd :: "pyfloat \<Rightarrow> pyfloat \<Rightarrow> pyfloat" where
  "fadd NaN _ = NaN"
| "fadd _ NaN = NaN"
| "fadd PInf NInf = NaN"
| "fadd NInf PInf = NaN"
| "fadd PInf _ = PInf"
| "fadd _ PInf = PInf"
| "fadd NInf _ = NInf"
| "fadd _ NInf = NInf"
| "fadd (Fin a) (Fin b) = round64 (a + b)"

definition float_of_int :: "int \<Rightarrow> pyfloat" where
  "float_of_int n = round64 (of_int n)"

subsection \<open>\<open>float(s)\<close> for a string\<close>

text \<open>
  A string is a list of characters with code points below 256. \<open>float\<close> skips
  white space on both sides and reads a decimal number with an optional sign, fraction
  and exponent, or \<open>inf\<close>, \<open>infinity\<close> or \<open>nan\<close> in any case; the value is rounded
  to the nearest float, and a number too large gives an infinity.
\<close>

definition is_digit :: "char \<Rightarrow> bool" where
  "is_digit c = (48 \<le> (of_char c :: nat) \<and> (of_char c :: nat) \<le> 57)"

definition digit_val :: "char \<Rightarrow> int" where
  "digit_val c = of_char c - 48"

definition digits_val :: "string \<Rightarrow> int" where
  "digits_val ds = foldl (\<lambda>acc c. 10 * acc + digit_val c) 0 ds"

definition py_isspace :: "char \<Rightarrow> bool" where
  "py_isspace c = ((9 \<le> (of_char c :: nat) \<and> (of_char c :: nat) \<le> 13) \<or> (of_char c :: nat) = 32)"

definition to_ascii :: "char \<Rightarrow> char" where
  \<comment> \<open>a string with a character outside ASCII is first transliterated: Unicode white
      space (NEL and NBSP among the code points below 256) to a blank, anything else
      that is not a decimal digit to a question mark\<close>
  "to_ascii c =
     (let n = (of_char c :: nat)
      in if n < 127 then c
         else if n = 133 \<or> n = 160 then CHR '' ''
         else CHR ''?'')"

definition to_lower :: "char \<Rightarrow> char" where
  "to_lower c =
     (let n = (of_char c :: nat)
      in if 65 \<le> n \<and> n \<le> 90 then char_of (n + 32) else c)"

definition strip_space :: "string \<Rightarrow> string" where
  \<comment> \<open>leading and trailing white space is skipped\<close>
  "strip_space s = rev (dropWhile py_isspace (rev (dropWhile py_isspace s)))"

text \<open>
  An underscore may stand between two digits and nowhere else; the underscores are
  taken out before the number is read.
\<close>

fun strip_underscores :: "char \<Rightarrow> string \<Rightarrow> string option" where
  "strip_underscores prev [] = (if prev = CHR ''_'' then None else Some [])"
| "strip_underscores prev (c # cs) =
     (if c = CHR ''_'' then
        (if is_digit prev then strip_underscores c cs else None)
      else if prev = CHR ''_'' \<and> \<not> is_digit c then None
      else map_option ((#) c) (strip_underscores c cs))"

definition take_sign :: "string \<Rightarrow> bool \<times> string" where
  "take_sign s =
     (case s of
        c # cs \<Rightarrow>
          if c = CHR ''-'' then (True, cs)
          else if c = CHR ''+'' then (False, cs)
          else (False, s)
      | [] \<Rightarrow> (False, s))"

definition parse_exponent :: "string \<Rightarrow> int option" where
  "parse_exponent s =
     (case s of
        [] \<Rightarrow> Some 0
      | c # cs \<Rightarrow>
          if c = CHR ''e'' \<or> c = CHR ''E'' then
            (let (neg, ds) = take_sign cs
             in if ds \<noteq> [] \<and> list_all is_digit ds
                then Some (if neg then - digits_val ds else digits_val ds)
                else None)
          else None)"

definition pow10 :: "int \<Rightarrow> rat" where
  "pow10 k = (if 0 \<le> k then 10 ^ nat k else 1 / 10 ^ nat (- k))"

definition parse_number :: "string \<Rightarrow> pyfloat option" where
  "parse_number s =
     (let (neg, s1) = take_sign s;
          ip = takeWhile is_digit s1;
          r1 = dropWhile is_digit s1;
          (fp, r2) =
            (case r1 of
               c # cs \<Rightarrow>
                 if c = CHR ''.'' then (takeWhile is_digit cs, dropWhile is_digit cs)
                 else ([], r1)
             | [] \<Rightarrow> ([], r1))
      in if ip = [] \<and> fp = [] then None
         else
           (case parse_exponent r2 of
              None \<Rightarrow> None
            | Some e \<Rightarrow>
                let m = of_int (digits_val (ip @ fp)) * pow10 (e - int (length fp))
                in Some (round64 (if neg then - m else m))))"

definition parse_inf_or_nan :: "string \<Rightarrow> pyfloat option" where
  "parse_inf_or_nan s =
     (let (neg, s1) = take_sign s; l = map to_lower s1
      in if l = ''inf'' \<or> l = ''infinity'' then Some (if neg then NInf else PInf)
         else if l = ''nan'' then Some NaN
         else None)"

definition py_float :: "string \<Rightarrow> pyfloat option" where
  \<comment> \<open>\<open>None\<close> is the \<open>ValueError\<close> "could not convert string to float"\<close>
  "py_float s =
     (case strip_underscores (CHR 0x00) (map to_ascii s) of
        None \<Rightarrow> None
      | Some u \<Rightarrow>
          (case parse_number (strip_space u) of
             Some f \<Rightarrow> Some f
           | None \<Rightarrow> parse_inf_or_nan (strip_space u)))"

subsection \<open>Columns and frames\<close>

datatype dtype = Object | Int64 | Float64

text \<open>
  A cell of an \<open>object\<close> column is a string or missing (\<open>CNA\<close>: \<open>None\<close> or a NaN
  object); a cell of an \<open>int64\<close> column is \<open>CInt\<close>, one of a \<open>float64\<close> column \<open>CFloat\<close>,
  where the missing value is \<open>CFloat NaN\<close>. These are the columns that \<open>read_csv\<close>
  builds and that the tests of the pipeline build. Equality of cells is the equality
  that \<open>drop_duplicates\<close> uses: two missing values are equal.
\<close>

datatype cell = CStr string | CNA | CInt int | CFloat pyfloat

record series =
  dtype :: dtype
  cells :: "cell list"

record dataframe =
  columns :: "(string \<times> series) list"
  index :: "int list"

text \<open>
  The frames of the model (\<open>wf_frame\<close>): the column names are pairwise different,
  every column has one cell for each row label, and every cell is of the kind that the
  dtype of its column holds.
\<close>

fun conforms :: "dtype \<Rightarrow> cell \<Rightarrow> bool" where
  "conforms Object (CStr _) = True"
| "conforms Object CNA = True"
| "conforms Int64 (CInt n) = (- (2 ^ 63) \<le> n \<and> n < 2 ^ 63)"
| "conforms Float64 (CFloat _) = True"
| "conforms _ _ = False"

definition wf_series :: "nat \<Rightarrow> series \<Rightarrow> bool" where
  "wf_series n s = (length (cells s) = n \<and> list_all (conforms (dtype s)) (cells s))"

definition wf_frame :: "dataframe \<Rightarrow> bool" where
  "wf_frame df =
     (distinct (map fst (columns df)) \<and>
      list_all (wf_series (length (index df))) (map snd (columns df)))"

definition nrows :: "dataframe \<Rightarrow> nat" where
  "nrows df = length (index df)"

definition row :: "dataframe \<Rightarrow> nat \<Rightarrow> cell list" where
  \<comment> \<open>the values of row \<open>i\<close> across all columns (the row label is not part of it)\<close>
  "row df i = map (\<lambda>c. cells (snd c) ! i) (columns df)"

definition rows :: "dataframe \<Rightarrow> cell list list" where
  "rows df = map (row df) [0..<nrows df]"

definition empty :: "dataframe \<Rightarrow> bool" where
  \<comment> \<open>\<open>DataFrame.empty\<close>: an axis of length 0\<close>
  "empty df = (index df = [] \<or> columns df = [])"

subsection \<open>\<open>DataFrame.drop_duplicates\<close>\<close>

text \<open>
  With its default arguments: an empty frame is copied; otherwise the rows that are not
  marked as duplicates are selected, with their labels, in their order.
\<close>

fun duplicated_from :: "'a list \<Rightarrow> 'a list \<Rightarrow> bool list" where
  "duplicated_from seen [] = []"
| "duplicated_from seen (r # rs) = (r \<in> set seen) # duplicated_from (r # seen) rs"

definition duplicated :: "dataframe \<Rightarrow> bool list" where
  \<comment> \<open>\<open>keep='first'\<close>: a row is marked when an equal row stands before it\<close>
  "duplicated df = duplicated_from [] (rows df)"

definition select :: "bool list \<Rightarrow> 'a list \<Rightarrow> 'a list" where
  \<comment> \<open>indexing with a boolean mask\<close>
  "select m xs = map snd (filter fst (zip m xs))"

definition getitem_mask :: "dataframe \<Rightarrow> bool list \<Rightarrow> dataframe" where
  "getitem_mask df m =
     \<lparr>columns = map (\<lambda>c. (fst c, (snd c)\<lparr>cells := select m (cells (snd c))\<rparr>)) (columns df),
      index = select m (index df)\<rparr>"

definition drop_duplicates :: "dataframe \<Rightarrow> dataframe" where
  "drop_duplicates df =
     (if empty df then df else getitem_mask df (map Not (duplicated df)))"

subsection \<open>Column access, the string accessor, conversion, addition\<close>

definition getitem :: "dataframe \<Rightarrow> string \<Rightarrow> error + series" where
  \<comment> \<open>\<open>data[k]\<close>\<close>
  "getitem df k =
     (case map_of (columns df) k of
        None \<Rightarrow> Inl (KeyError k)
      | Some s \<Rightarrow> Inr s)"

definition setitem :: "dataframe \<Rightarrow> string \<Rightarrow> series \<Rightarrow> dataframe" where
  \<comment> \<open>\<open>data[k] = s\<close>: an existing column is replaced where it stands, a new one is
      appended\<close>
  "setitem df k s = df\<lparr>columns := AList.update k s (columns df)\<rparr>"

definition str_accessor :: "series \<Rightarrow> error + series" where
  \<comment> \<open>\<open>.str\<close>: "Can only use .str accessor with string values"\<close>
  "str_accessor s = (if dtype s = Object then Inr s else Inl AttributeError)"

text \<open>Python's \<open>s.replace(old, new)\<close>: every occurrence, from the left.\<close>

function replace :: "string \<Rightarrow> string \<Rightarrow> string \<Rightarrow> string" where
  "replace old new s =
     (if old = [] then new @ concat (map (\<lambda>c. c # new) s)
      else if s = [] then []
      else if take (length old) s = old
        then new @ replace old new (drop (length old) s)
      else hd s # replace old new (tl s))"
  by pat_completeness auto
termination
  by (relation "measure (\<lambda>(old, new, s). length s)") auto

declare replace.simps [simp del]

definition str_replace :: "series \<Rightarrow> string \<Rightarrow> string \<Rightarrow> series" where
  \<comment> \<open>\<open>.str.replace(pat, repl)\<close> for a pattern of one character, which is taken
      literally; a cell that is not a string gives a missing value\<close>
  "str_replace s pat repl =
     \<lparr>dtype = Object,
      cells = map (\<lambda>c. case c of CStr x \<Rightarrow> CStr (replace pat repl x) | _ \<Rightarrow> CNA) (cells s)\<rparr>"

fun to_float :: "cell \<Rightarrow> pyfloat option" where
  "to_float (CStr x) = py_float x"
| "to_float CNA = Some NaN"
| "to_float (CInt n) = Some (float_of_int n)"
| "to_float (CFloat f) = Some f"

fun sequence :: "'a option list \<Rightarrow> 'a list option" where
  "sequence [] = Some []"
| "sequence (None # _) = None"
| "sequence (Some x # xs) = map_option ((#) x) (sequence xs)"

definition astype_float :: "series \<Rightarrow> error + series" where
  \<comment> \<open>\<open>.astype(float)\<close>: \<open>float(x)\<close> of every cell; the first string that is no float
      raises \<open>ValueError\<close>\<close>
  "astype_float s =
     (case sequence (map to_float (cells s)) of
        None \<Rightarrow> Inl ValueError
      | Some fs \<Rightarrow> Inr \<lparr>dtype = Float64, cells = map CFloat fs\<rparr>)"

definition int64_wrap :: "int \<Rightarrow> int" where
  \<comment> \<open>the sum of two \<open>int64\<close> wraps around\<close>
  "int64_wrap n = (n + 2 ^ 63) mod 2 ^ 64 - 2 ^ 63"

fun cell_add :: "cell \<Rightarrow> cell \<Rightarrow> cell option" where
  "cell_add (CInt a) (CInt b) = Some (CInt (int64_wrap (a + b)))"
| "cell_add (CInt a) (CFloat b) = Some (CFloat (fadd (float_of_int a) b))"
| "cell_add (CFloat a) (CInt b) = Some (CFloat (fadd a (float_of_int b)))"
| "cell_add (CFloat a) (CFloat b) = Some (CFloat (fadd a b))"
| "cell_add (CStr a) (CStr b) = Some (CStr (a @ b))"
| "cell_add CNA _ = Some CNA"
| "cell_add _ CNA = Some CNA"
| "cell_add (CFloat a) (CStr _) = (if a = NaN then Some CNA else None)"
| "cell_add (CStr _) (CFloat b) = (if b = NaN then Some CNA else None)"
| "cell_add (CInt _) (CStr _) = None"
| "cell_add (CStr _) (CInt _) = None"

definition result_dtype :: "dtype \<Rightarrow> dtype \<Rightarrow> dtype" where
  "result_dtype a b =
     (if a = Object \<or> b = Object then Object
      else if a = Int64 \<and> b = Int64 then Int64
      else Float64)"

definition series_add :: "series \<Rightarrow> series \<Rightarrow> error + series" where
  \<comment> \<open>\<open>+\<close> of two columns of one frame, which share its row labels: cell by cell. With
      an \<open>object\<close> operand the sum is taken where both cells are present and is
      missing elsewhere; \<open>None\<close> is Python's \<open>TypeError\<close> for a number and a string\<close>
  "series_add x y =
     (case sequence (map (\<lambda>p. cell_add (fst p) (snd p)) (zip (cells x) (cells y))) of
        None \<Rightarrow> Inl TypeError
      | Some cs \<Rightarrow> Inr \<lparr>dtype = result_dtype (dtype x) (dtype y), cells = cs\<rparr>)"

subsection \<open>The heap\<close>

text \<open>
  A reference is a position in the list of objects; a new object is put at the end.
\<close>

type_synonym heap = "dataframe list"

definition alloc :: "heap \<Rightarrow> dataframe \<Rightarrow> heap \<times> nat" where
  "alloc h df = (h @ [df], length h)"

subsection \<open>The pipeline\<close>

text \<open>
  \<^verbatim>\<open>
  def data_transformation(data):
      data = data.drop_duplicates()
      data['billing_amount'] = data['billing_amount'].str.replace('$', '').astype(float)
      data['total_charges'] = data['billing_amount'] + data['tax_amount']
      return data
  \<close>
  The first line binds the local name to a new frame; the two assignments change that
  frame in place. The result is the heap when the function returns or raises, and the
  exception or the reference returned.
\<close>

definition data_transformation :: "heap \<Rightarrow> nat \<Rightarrow> heap \<times> (error + nat)" where
  "data_transformation h data =
     (let (h1, data1) = alloc h (drop_duplicates (h ! data))
      in case getitem (h1 ! data1) ''billing_amount'' of
           Inl e \<Rightarrow> (h1, Inl e)
         | Inr b \<Rightarrow>
        (case str_accessor b of
           Inl e \<Rightarrow> (h1, Inl e)
         | Inr b1 \<Rightarrow>
        (case astype_float (str_replace b1 ''$'' []) of
           Inl e \<Rightarrow> (h1, Inl e)
         | Inr b2 \<Rightarrow>
        (let h2 = h1[data1 := setitem (h1 ! data1) ''billing_amount'' b2]
         in case getitem (h2 ! data1) ''billing_amount'' of
              Inl e \<Rightarrow> (h2, Inl e)
            | Inr x \<Rightarrow>
           (case getitem (h2 ! data1) ''tax_amount'' of
              Inl e \<Rightarrow> (h2, Inl e)
            | Inr y \<Rightarrow>
           (case series_add x y of
              Inl e \<Rightarrow> (h2, Inl e)
            | Inr t \<Rightarrow>
                (h2[data1 := setitem (h2 ! data1) ''total_charges'' t], Inr data1)))))))"

subsection \<open>Files\<close>

text \<open>
  The file system is the content of each file that exists and the set of paths that
  can be opened for writing.
\<close>

record filesystem =
  files :: "string \<rightharpoonup> string"
  writable :: "string \<Rightarrow> bool"

text \<open>
  \<^verbatim>\<open>
  def data_extraction(file_path):
      data = pd.read_csv(file_path)
      return data
  \<close>
  \<open>read_csv\<close> raises \<open>FileNotFoundError\<close> for a path that is no file, and
  \<open>EmptyDataError\<close> ("No columns to parse from file") for a file without content. The
  tokenizer and the type inference that build the frame from a file with content are
  the parameter \<open>parse\<close>.
\<close>

definition read_csv ::
  "(string \<Rightarrow> error + dataframe) \<Rightarrow> filesystem \<Rightarrow> string \<Rightarrow> error + dataframe" where
  "read_csv parse fs file_path =
     (case files fs file_path of
        None \<Rightarrow> Inl FileNotFoundError
      | Some content \<Rightarrow> if content = [] then Inl EmptyDataError else parse content)"

definition data_extraction ::
  "(string \<Rightarrow> error + dataframe) \<Rightarrow> filesystem \<Rightarrow> heap \<Rightarrow> string \<Rightarrow> heap \<times> (error + nat)" where
  "data_extraction parse fs h file_path =
     (case read_csv parse fs file_path of
        Inl e \<Rightarrow> (h, Inl e)
      | Inr df \<Rightarrow> (let (h1, data) = alloc h df in (h1, Inr data)))"

text \<open>
  \<^verbatim>\<open>
  def data_loading(data, output_file):
      data.to_csv(output_file, index=False)
  \<close>
  \<open>to_csv\<close> writes the header and then one line for each row, through Python's
  \<open>csv.writer\<close> with minimal quoting and the line terminator of the platform. How a
  float is printed (its shortest decimal that reads back) is the parameter \<open>fmt\<close>.
\<close>

definition linesep :: string where
  \<comment> \<open>\<open>os.linesep\<close> of a POSIX platform\<close>
  "linesep = [CHR 0x0A]"

definition needs_quote :: "string \<Rightarrow> bool" where
  "needs_quote s =
     (\<exists>c \<in> set s. c = CHR '','' \<or> c = CHR 0x22 \<or> c = CHR 0x0A \<or> c = CHR 0x0D)"

definition csv_field :: "string \<Rightarrow> string" where
  "csv_field s =
     (if needs_quote s
      then [CHR 0x22] @ concat (map (\<lambda>c. if c = CHR 0x22 then [c, c] else [c]) s) @ [CHR 0x22]
      else s)"

fun join :: "string \<Rightarrow> string list \<Rightarrow> string" where
  "join sep [] = []"
| "join sep [x] = x"
| "join sep (x # y # ys) = x @ sep @ join sep (y # ys)"

definition csv_row :: "string list \<Rightarrow> string" where
  \<comment> \<open>a row of one empty field is written as a pair of quotes\<close>
  "csv_row fs =
     (if fs = [[]] then [CHR 0x22, CHR 0x22] else join '','' (map csv_field fs))
     @ linesep"

function digits_of :: "nat \<Rightarrow> string" where
  "digits_of n =
     (if n < 10 then [char_of (48 + n)] else digits_of (n div 10) @ [char_of (48 + n mod 10)])"
  by pat_completeness auto
termination
  by (relation "measure id") auto

declare digits_of.simps [simp del]

definition str_int :: "int \<Rightarrow> string" where
  "str_int n = (if n < 0 then CHR ''-'' # digits_of (nat (- n)) else digits_of (nat n))"

definition cell_text :: "(pyfloat \<Rightarrow> string) \<Rightarrow> cell \<Rightarrow> string" where
  \<comment> \<open>a missing value is written as the empty string (\<open>na_rep\<close>)\<close>
  "cell_text fmt c =
     (case c of
        CStr s \<Rightarrow> s
      | CNA \<Rightarrow> []
      | CInt n \<Rightarrow> str_int n
      | CFloat f \<Rightarrow> if f = NaN then [] else fmt f)"

definition to_csv :: "(pyfloat \<Rightarrow> string) \<Rightarrow> dataframe \<Rightarrow> string" where
  \<comment> \<open>\<open>index=False\<close>: the row labels are not written\<close>
  "to_csv fmt df =
     csv_row (map fst (columns df))
     @ concat (map (\<lambda>i. csv_row (map (cell_text fmt) (row df i))) [0..<nrows df])"

definition data_loading ::
  "(pyfloat \<Rightarrow> string) \<Rightarrow> heap \<Rightarrow> nat \<Rightarrow> filesystem \<Rightarrow> string \<Rightarrow> error + filesystem" where
  "data_loading fmt h data fs output_file =
     (if writable fs output_file
      then Inr (fs\<lparr>files := (files fs)(output_file \<mapsto> to_csv fmt (h ! data))\<rparr>)
      else Inl OSError)"

subsection \<open>Example frames\<close>

text \<open>The two rows of the example in the specification.\<close>

definition billing_data :: dataframe where
  "billing_data =
     \<lparr>columns =
        [(''customer_id'', \<lparr>dtype = Int64, cells = [CInt 1, CInt 2]\<rparr>),
         (''billing_amount'', \<lparr>dtype = Object, cells = [CStr ''$100'', CStr ''$200'']\<rparr>),
         (''tax_amount'', \<lparr>dtype = Int64, cells = [CInt 10, CInt 20]\<rparr>)],
      index = [0, 1]\<rparr>"

definition transformed_data :: dataframe where
  "transformed_data =
     \<lparr>columns =
        [(''customer_id'', \<lparr>dtype = Int64, cells = [CInt 1, CInt 2]\<rparr>),
         (''billing_amount'', \<lparr>dtype = Float64, cells = [CFloat (Fin 100), CFloat (Fin 200)]\<rparr>),
         (''tax_amount'', \<lparr>dtype = Int64, cells = [CInt 10, CInt 20]\<rparr>),
         (''total_charges'', \<lparr>dtype = Float64, cells = [CFloat (Fin 110), CFloat (Fin 220)]\<rparr>)],
      index = [0, 1]\<rparr>"

text \<open>\<open>pd.DataFrame()\<close>, and \<open>pd.DataFrame({'customer_id': [1, 2, 3]})\<close> of the tests.\<close>

definition empty_data :: dataframe where
  "empty_data = \<lparr>columns = [], index = []\<rparr>"

definition missing_columns_data :: dataframe where
  "missing_columns_data =
     \<lparr>columns = [(''customer_id'', \<lparr>dtype = Int64, cells = [CInt 1, CInt 2, CInt 3]\<rparr>)],
      index = [0, 1, 2]\<rparr>"

text \<open>A frame whose amounts are numbers already and that has no \<open>tax_amount\<close>.\<close>

definition numeric_billing_data :: dataframe where
  "numeric_billing_data =
     \<lparr>columns =
        [(''customer_id'', \<lparr>dtype = Int64, cells = [CInt 1, CInt 2, CInt 3]\<rparr>),
         (''billing_amount'', \<lparr>dtype = Int64, cells = [CInt 100, CInt 200, CInt 300]\<rparr>)],
      index = [0, 1, 2]\<rparr>"

text \<open>Two rows that differ in the spelling of the amount only.\<close>

definition same_amount_data :: dataframe where
  "same_amount_data =
     \<lparr>columns =
        [(''customer_id'', \<lparr>dtype = Int64, cells = [CInt 1, CInt 1]\<rparr>),
         (''billing_amount'', \<lparr>dtype = Object, cells = [CStr ''$100'', CStr ''100'']\<rparr>),
         (''tax_amount'', \<lparr>dtype = Int64, cells = [CInt 10, CInt 10]\<rparr>)],
      index = [0, 1]\<rparr>"

text \<open>An amount with the currency symbol inside.\<close>

definition inner_dollar_data :: dataframe where
  "inner_dollar_data =
     \<lparr>columns =
        [(''customer_id'', \<lparr>dtype = Int64, cells = [CInt 1]\<rparr>),
         (''billing_amount'', \<lparr>dtype = Object, cells = [CStr ''1$00'']\<rparr>),
         (''tax_amount'', \<lparr>dtype = Int64, cells = [CInt 10]\<rparr>)],
      index = [0]\<rparr>"

text \<open>An amount that is no number, in a frame without \<open>tax_amount\<close>.\<close>

definition bad_amount_data :: dataframe where
  "bad_amount_data =
     \<lparr>columns =
        [(''customer_id'', \<lparr>dtype = Int64, cells = [CInt 1]\<rparr>),
         (''billing_amount'', \<lparr>dtype = Object, cells = [CStr ''abc'']\<rparr>)],
      index = [0]\<rparr>"

text \<open>A good amount, in a frame without \<open>tax_amount\<close>.\<close>

definition missing_tax_data :: dataframe where
  "missing_tax_data =
     \<lparr>columns =
        [(''customer_id'', \<lparr>dtype = Int64, cells = [CInt 1]\<rparr>),
         (''billing_amount'', \<lparr>dtype = Object, cells = [CStr ''$100'']\<rparr>)],
      index = [0]\<rparr>"

text \<open>A frame with the columns of the pipeline and no row.\<close>

definition no_rows_data :: dataframe where
  "no_rows_data =
     \<lparr>columns =
        [(''customer_id'', \<lparr>dtype = Int64, cells = []\<rparr>),
         (''total_charges'', \<lparr>dtype = Float64, cells = []\<rparr>)],
      index = []\<rparr>"

text \<open>
  The specification of the conversion speaks of stripping a leading currency symbol.
  This is that reading, for comparison with what the source does:
\<close>

definition spec_strip_leading_currency :: "string \<Rightarrow> string" where
  "spec_strip_leading_currency s =
     (case s of c # cs \<Rightarrow> if c = CHR ''$'' then cs else s | [] \<Rightarrow> s)"

section \<open>Properties\<close>

subsection \<open>Integers below \<open>2^53\<close> are floats\<close>

lemma bit_length_le: "n < 2 ^ k \<Longrightarrow> bit_length n \<le> int k"
proof (induction k arbitrary: n)
  case 0
  then show ?case by (simp add: bit_length.simps)
next
  case (Suc k)
  show ?case
  proof (cases "n \<le> 0")
    case True
    then show ?thesis by (simp add: bit_length.simps)
  next
    case False
    from Suc.prems have "n div 2 < 2 ^ k" by simp
    then have "bit_length (n div 2) \<le> int k" by (rule Suc.IH)
    with False show ?thesis by (subst bit_length.simps) simp
  qed
qed

lemma bit_length_nonneg: "0 \<le> bit_length n"
  by (induction n rule: bit_length.induct) (subst bit_length.simps, simp)

lemma round_half_even_of_int: "round_half_even (of_int m) = m"
  by (simp add: round_half_even_def)

lemma round64_pos_int:
  assumes "0 < n" and "n < 2 ^ 53"
  shows "round64 (of_int n) = Fin (of_int n)"
proof -
  let ?a = "of_int n :: rat"
  have a: "\<bar>?a\<bar> = ?a" "1 \<le> ?a" "?a \<noteq> 0" "0 < ?a" using assms by simp_all
  have fl: "floor_log2 ?a = bit_length n - 1"
    using a by (simp add: floor_log2_def)
  define k where "k = nat (53 - bit_length n)"
  have "bit_length n \<le> 53" using bit_length_le [of n 53] assms by simp
  moreover have "1 \<le> bit_length n" using assms bit_length_nonneg [of "n div 2"]
    by (subst bit_length.simps) simp
  ultimately have p: "max (floor_log2 ?a) (- 1022) - 52 = - int k"
    by (simp add: fl k_def)
  have pw: "pow2 (- int k) = 1 / 2 ^ k"
    by (cases "k = 0") (simp_all add: pow2_def)
  have "?a / pow2 (- int k) = of_int (n * 2 ^ k)"
    by (simp add: pw)
  then have r: "round_half_even (?a / pow2 (- int k)) = n * 2 ^ k"
    by (simp only: round_half_even_of_int)
  have v: "of_int (n * 2 ^ k) * pow2 (- int k) = ?a"
    by (simp add: pw)
  have "?a < 2 ^ 1024"
  proof -
    have "?a < of_int (2 ^ 53)" using assms by (simp only: of_int_less_iff)
    also have "\<dots> < 2 ^ 1024" by simp
    finally show ?thesis .
  qed
  then have big: "\<not> pow2 1024 \<le> ?a" by (simp add: pow2_def)
  show ?thesis
    unfolding round64_def Let_def a p r v using a big by simp
qed

lemma round64_int:
  assumes "\<bar>n\<bar> < 2 ^ 53"
  shows "round64 (of_int n) = Fin (of_int n)"
proof -
  consider "n = 0" | "0 < n" | "n < 0" by linarith
  then show ?thesis
  proof cases
    case 1
    then show ?thesis by (simp add: round64_def)
  next
    case 2
    with assms show ?thesis by (simp add: round64_pos_int)
  next
    case 3
    with assms have pos: "0 < - n" "- n < 2 ^ 53" by simp_all
    have neg: "round64 (- q) =
        (case round64 q of Fin v \<Rightarrow> Fin (- v) | PInf \<Rightarrow> NInf | NInf \<Rightarrow> PInf | NaN \<Rightarrow> NaN)"
      if "q \<noteq> 0" for q
      using that by (auto simp: round64_def Let_def)
    have "round64 (of_int n) = round64 (- of_int (- n))" by simp
    also have "\<dots> = (case round64 (of_int (- n)) of
        Fin v \<Rightarrow> Fin (- v) | PInf \<Rightarrow> NInf | NInf \<Rightarrow> PInf | NaN \<Rightarrow> NaN)"
      using 3 by (intro neg) simp
    also have "\<dots> = Fin (of_int n)"
      by (simp only: round64_pos_int [OF pos]) simp
    finally show ?thesis .
  qed
qed

lemma round64_numeral:
  "(numeral k :: int) < 2 ^ 53 \<Longrightarrow> round64 (numeral k) = Fin (numeral k)"
  using round64_int [of "numeral k"] by simp

lemma float_of_int_numeral:
  "(numeral k :: int) < 2 ^ 53 \<Longrightarrow> float_of_int (numeral k) = Fin (numeral k)"
  using round64_int [of "numeral k"] by (simp add: float_of_int_def)

lemmas py_float_defs =
  py_float_def strip_space_def to_ascii_def py_isspace_def is_digit_def parse_number_def
  take_sign_def parse_exponent_def parse_inf_or_nan_def to_lower_def digits_val_def
  digit_val_def pow10_def Let_def

subsection \<open>Selecting with a mask\<close>

lemma select_Nil [simp]: "select [] xs = []" "select m [] = []"
  by (simp_all add: select_def)

lemma select_Cons [simp]:
  "select (b # m) (x # xs) = (if b then x # select m xs else select m xs)"
  by (simp add: select_def)

lemma select_map: "select m (map f xs) = map f (select m xs)"
proof (induction xs arbitrary: m)
  case Nil
  then show ?case by simp
next
  case (Cons x xs)
  then show ?case by (cases m) simp_all
qed

lemma select_nth: "select m xs = map ((!) xs) (select m [0..<length xs])"
proof -
  have "select m (map ((!) xs) [0..<length xs]) = map ((!) xs) (select m [0..<length xs])"
    by (rule select_map)
  then show ?thesis by (simp add: map_nth)
qed

lemma set_select: "set (select m xs) \<subseteq> set xs"
  unfolding select_def by (auto dest: set_zip_rightD)

lemma select_first_occurrences:
  "distinct (select (map Not (duplicated_from seen rs)) rs) \<and>
   set (select (map Not (duplicated_from seen rs)) rs) = set rs - set seen"
proof (induction rs arbitrary: seen)
  case Nil
  then show ?case by simp
next
  case (Cons r rs)
  from Cons.IH [of "r # seen"] show ?case by auto
qed

subsection \<open>Frames\<close>

lemma wf_frame_cells:
  assumes "wf_frame df" and "c \<in> set (columns df)"
  shows "length (cells (snd c)) = nrows df"
  using assms by (auto simp: wf_frame_def wf_series_def nrows_def list_all_iff)

lemma wf_frame_getitem:
  assumes "wf_frame df" and "getitem df k = Inr s"
  shows "(k, s) \<in> set (columns df)" and "length (cells s) = nrows df"
proof -
  from assms(2) have "map_of (columns df) k = Some s"
    by (simp add: getitem_def split: option.splits)
  then show "(k, s) \<in> set (columns df)" by (rule map_of_SomeD)
  then show "length (cells s) = nrows df"
    using wf_frame_cells [OF assms(1)] by fastforce
qed

lemma getitem_member:
  assumes "distinct (map fst (columns df))" and "(k, s) \<in> set (columns df)"
  shows "getitem df k = Inr s"
  using assms by (simp add: getitem_def)

lemma row_eq_cells:
  assumes "row df i = row df j" and "c \<in> set (columns df)"
  shows "cells (snd c) ! i = cells (snd c) ! j"
  using assms by (simp add: row_def)

lemma getitem_setitem:
  "getitem (setitem df k s) k' = (if k' = k then Inr s else getitem df k')"
  by (simp add: getitem_def setitem_def update_conv')

lemma index_setitem [simp]: "index (setitem df k s) = index df"
  by (simp add: setitem_def)

lemma nrows_setitem [simp]: "nrows (setitem df k s) = nrows df"
  by (simp add: nrows_def)

lemma columns_setitem_other:
  assumes "c \<in> set (columns df)" and "fst c \<noteq> k"
  shows "c \<in> set (columns (setitem df k s))"
proof -
  obtain n v where c: "c = (n, v)" by (cases c)
  have "(n, v) \<in> set al \<Longrightarrow> n \<noteq> k \<Longrightarrow> (n, v) \<in> set (AList.update k s al)" for al
    by (induction al) auto
  with assms c show ?thesis by (simp add: setitem_def)
qed

lemma nrows_getitem_mask: "nrows (getitem_mask df m) = length (select m [0..<nrows df])"
proof -
  have "select m (index df) = map ((!) (index df)) (select m [0..<length (index df)])"
    by (rule select_nth)
  then show ?thesis by (simp add: nrows_def getitem_mask_def)
qed

lemma row_getitem_mask:
  assumes "wf_frame df" and "k < length (select m [0..<nrows df])"
  shows "row (getitem_mask df m) k = row df (select m [0..<nrows df] ! k)"
proof -
  have "select m (cells (snd c)) ! k = cells (snd c) ! (select m [0..<nrows df] ! k)"
    if "c \<in> set (columns df)" for c
  proof -
    have "select m (cells (snd c)) = map ((!) (cells (snd c))) (select m [0..<nrows df])"
      using select_nth [of m "cells (snd c)"] wf_frame_cells [OF assms(1) that] by simp
    with assms(2) show ?thesis by simp
  qed
  then show ?thesis by (simp add: row_def getitem_mask_def)
qed

lemma rows_getitem_mask:
  assumes "wf_frame df"
  shows "rows (getitem_mask df m) = select m (rows df)"
proof -
  let ?sel = "select m [0..<nrows df]"
  have "rows (getitem_mask df m) = map (\<lambda>k. row df (?sel ! k)) [0..<length ?sel]"
    by (simp add: rows_def nrows_getitem_mask row_getitem_mask [OF assms])
  also have "\<dots> = map (row df) ?sel"
    by (simp add: map_nth flip: map_map [unfolded comp_def])
  also have "\<dots> = select m (rows df)"
    by (simp add: rows_def select_map)
  finally show ?thesis .
qed

lemma distinct_rows_drop_duplicates:
  assumes "wf_frame df" and "columns df \<noteq> []"
  shows "distinct (rows (drop_duplicates df))"
proof (cases "index df = []")
  case True
  then show ?thesis by (simp add: drop_duplicates_def empty_def rows_def nrows_def)
next
  case False
  with assms(2) have "drop_duplicates df = getitem_mask df (map Not (duplicated df))"
    by (simp add: drop_duplicates_def empty_def)
  then show ?thesis
    using select_first_occurrences [of "[]" "rows df"]
    by (simp add: rows_getitem_mask [OF assms(1)] duplicated_def)
qed

lemma set_rows_drop_duplicates:
  assumes "wf_frame df"
  shows "set (rows (drop_duplicates df)) = set (rows df)"
proof (cases "empty df")
  case True
  then show ?thesis by (simp add: drop_duplicates_def)
next
  case False
  then show ?thesis
    using select_first_occurrences [of "[]" "rows df"]
    by (simp add: drop_duplicates_def rows_getitem_mask [OF assms] duplicated_def)
qed

lemma wf_frame_getitem_mask:
  assumes "wf_frame df"
  shows "wf_frame (getitem_mask df m)"
proof -
  have names: "map fst (columns (getitem_mask df m)) = map fst (columns df)"
    by (simp add: getitem_mask_def comp_def)
  have "wf_series (length (select m (index df))) ((snd c)\<lparr>cells := select m (cells (snd c))\<rparr>)"
    if "c \<in> set (columns df)" for c
  proof -
    from assms that have len: "length (cells (snd c)) = length (index df)"
      and conf: "list_all (conforms (dtype (snd c))) (cells (snd c))"
      by (auto simp: wf_frame_def wf_series_def list_all_iff)
    have "length (select m (cells (snd c))) = length (select m (index df))"
      using select_nth [of m "cells (snd c)"] select_nth [of m "index df"] len by simp
    moreover have "list_all (conforms (dtype (snd c))) (select m (cells (snd c)))"
      using conf set_select [of m "cells (snd c)"] by (auto simp: list_all_iff)
    ultimately show ?thesis by (simp add: wf_series_def)
  qed
  then have "list_all (wf_series (length (index (getitem_mask df m))))
               (map snd (columns (getitem_mask df m)))"
    by (simp add: getitem_mask_def list_all_iff)
  with assms names show ?thesis by (simp add: wf_frame_def)
qed

lemma wf_frame_drop_duplicates:
  assumes "wf_frame df"
  shows "wf_frame (drop_duplicates df)"
  using assms by (simp add: drop_duplicates_def wf_frame_getitem_mask)

lemma getitem_getitem_mask:
  "getitem (getitem_mask df m) k =
     (case getitem df k of
        Inl e \<Rightarrow> Inl e
      | Inr s \<Rightarrow> Inr (s\<lparr>cells := select m (cells s)\<rparr>))"
proof -
  have "map_of (map (\<lambda>c. (fst c, f (snd c))) al) k = map_option f (map_of al k)"
    for f :: "series \<Rightarrow> series" and al
    by (induction al) auto
  from this [of "\<lambda>s. s\<lparr>cells := select m (cells s)\<rparr>" "columns df"] show ?thesis
    by (simp add: getitem_def getitem_mask_def split: option.splits)
qed

lemma getitem_drop_duplicates_Inl:
  assumes "getitem df k = Inl e"
  shows "getitem (drop_duplicates df) k = Inl e"
  using assms by (simp add: drop_duplicates_def getitem_getitem_mask)

lemma getitem_drop_duplicates_Inr:
  assumes "getitem df k = Inr s"
  shows "\<exists>s'. getitem (drop_duplicates df) k = Inr s' \<and> dtype s' = dtype s"
  using assms by (simp add: drop_duplicates_def getitem_getitem_mask)

subsection \<open>Conversion and addition of columns\<close>

lemma sequence_Some:
  "sequence xs = Some ys \<longleftrightarrow> xs = map Some ys"
proof (induction xs arbitrary: ys)
  case Nil
  then show ?case by auto
next
  case (Cons x xs)
  then show ?case by (cases x) auto
qed

lemma sequence_None: "sequence xs = None \<longleftrightarrow> None \<in> set xs"
proof (induction xs)
  case Nil
  then show ?case by simp
next
  case (Cons x xs)
  then show ?case by (cases x) auto
qed

lemma replace_single: "replace [c] [] s = filter (\<lambda>a. a \<noteq> c) s"
proof (induction s)
  case Nil
  then show ?case by (simp add: replace.simps)
next
  case (Cons a s)
  then show ?case by (subst replace.simps) simp
qed

lemma astype_float_Inl:
  "astype_float s = Inl e \<longleftrightarrow> e = ValueError \<and> (\<exists>c \<in> set (cells s). to_float c = None)"
proof (cases "sequence (map to_float (cells s))")
  case None
  then have "None \<in> set (map to_float (cells s))" by (simp add: sequence_None)
  then obtain c where "c \<in> set (cells s)" and "to_float c = None" by (auto simp: image_iff)
  then have "\<exists>c \<in> set (cells s). to_float c = None" by blast
  with None show ?thesis by (auto simp: astype_float_def)
next
  case (Some fs)
  then have "None \<notin> set (map to_float (cells s))" by (simp add: sequence_Some)
  then have "\<not> (\<exists>c \<in> set (cells s). to_float c = None)" by (force simp: image_iff)
  with Some show ?thesis by (simp add: astype_float_def)
qed

lemma astype_float_Inr:
  assumes "astype_float s = Inr s'"
  shows "dtype s' = Float64" and "length (cells s') = length (cells s)"
    and "\<forall>i < length (cells s). \<exists>f. to_float (cells s ! i) = Some f \<and> cells s' ! i = CFloat f"
proof -
  from assms obtain fs where fs: "map to_float (cells s) = map Some fs"
    and s': "s' = \<lparr>dtype = Float64, cells = map CFloat fs\<rparr>"
    by (auto simp: astype_float_def sequence_Some split: option.splits)
  from fs have len: "length fs = length (cells s)"
    by (metis length_map)
  from s' show "dtype s' = Float64" by simp
  from s' len show "length (cells s') = length (cells s)" by simp
  show "\<forall>i < length (cells s). \<exists>f. to_float (cells s ! i) = Some f \<and> cells s' ! i = CFloat f"
  proof (intro allI impI)
    fix i assume i: "i < length (cells s)"
    from fs have "map to_float (cells s) ! i = map Some fs ! i" by simp
    with i len have "to_float (cells s ! i) = Some (fs ! i)" by simp
    moreover from s' i len have "cells s' ! i = CFloat (fs ! i)" by simp
    ultimately show "\<exists>f. to_float (cells s ! i) = Some f \<and> cells s' ! i = CFloat f" by blast
  qed
qed

lemma cells_str_replace:
  "cells (str_replace s ''$'' []) =
     map (\<lambda>c. case c of CStr x \<Rightarrow> CStr (filter (\<lambda>a. a \<noteq> CHR ''$'') x) | _ \<Rightarrow> CNA) (cells s)"
  by (auto simp: str_replace_def replace_single split: cell.splits)


lemma series_add_Inl: "series_add x y = Inl e \<Longrightarrow> e = TypeError"
  by (simp add: series_add_def split: option.splits)

subsection \<open>The transformation, step by step\<close>

lemma data_transformation_eq:
  "data_transformation h data =
     (let d = drop_duplicates (h ! data)
      in case getitem d ''billing_amount'' of
           Inl e \<Rightarrow> (h @ [d], Inl e)
         | Inr b \<Rightarrow>
             if dtype b \<noteq> Object then (h @ [d], Inl AttributeError)
             else
               (case astype_float (str_replace b ''$'' []) of
                  Inl e \<Rightarrow> (h @ [d], Inl e)
                | Inr b2 \<Rightarrow>
                    (case getitem d ''tax_amount'' of
                       Inl e \<Rightarrow> (h @ [setitem d ''billing_amount'' b2], Inl e)
                     | Inr y \<Rightarrow>
                         (case series_add b2 y of
                            Inl e \<Rightarrow> (h @ [setitem d ''billing_amount'' b2], Inl e)
                          | Inr t \<Rightarrow>
                              (h @ [setitem (setitem d ''billing_amount'' b2) ''total_charges'' t],
                               Inr (length h))))))"
  by (simp add: data_transformation_def alloc_def Let_def getitem_setitem str_accessor_def
      split: sum.splits)

lemma data_transformation_Inr:
  assumes "data_transformation h data = (h', Inr r)"
  obtains b b2 y t where
    "getitem (drop_duplicates (h ! data)) ''billing_amount'' = Inr b"
    "dtype b = Object"
    "astype_float (str_replace b ''$'' []) = Inr b2"
    "getitem (drop_duplicates (h ! data)) ''tax_amount'' = Inr y"
    "series_add b2 y = Inr t"
    "h' = h @ [setitem (setitem (drop_duplicates (h ! data)) ''billing_amount'' b2)
                 ''total_charges'' t]"
    "r = length h"
  using assms unfolding data_transformation_eq Let_def
  by (auto split: sum.splits if_splits)

lemma data_transformation_heap:
  "\<exists>df. fst (data_transformation h data) = h @ [df]"
  unfolding data_transformation_eq Let_def
  by (auto split: sum.splits)

subsection \<open>What deduplication keeps of a column\<close>

lemma cells_as_rows:
  assumes "wf_frame df" and "p < length (columns df)"
  shows "cells (snd (columns df ! p)) = map (\<lambda>r. r ! p) (rows df)"
proof (rule nth_equalityI)
  have "columns df ! p \<in> set (columns df)" using assms(2) by simp
  then have len: "length (cells (snd (columns df ! p))) = nrows df"
    using wf_frame_cells [OF assms(1)] by blast
  then show "length (cells (snd (columns df ! p))) = length (map (\<lambda>r. r ! p) (rows df))"
    by (simp add: rows_def)
  fix i assume "i < length (cells (snd (columns df ! p)))"
  with len have "i < nrows df" by simp
  then show "cells (snd (columns df ! p)) ! i = map (\<lambda>r. r ! p) (rows df) ! i"
    using assms(2) by (simp add: rows_def row_def)
qed

lemma set_cells_drop_duplicates:
  assumes "wf_frame df"
    and "getitem df k = Inr s"
    and "getitem (drop_duplicates df) k = Inr s'"
  shows "set (cells s') = set (cells s)"
proof (cases "empty df")
  case True
  with assms(2,3) show ?thesis by (simp add: drop_duplicates_def)
next
  case False
  let ?m = "map Not (duplicated df)"
  let ?d = "getitem_mask df ?m"
  from False have d: "drop_duplicates df = ?d" by (simp add: drop_duplicates_def)
  from wf_frame_getitem(1) [OF assms(1,2)] obtain p
    where p: "p < length (columns df)" and at: "columns df ! p = (k, s)"
    by (auto simp: in_set_conv_nth)
  from assms(2,3) have s': "s' = s\<lparr>cells := select ?m (cells s)\<rparr>"
    by (simp add: d getitem_getitem_mask)
  have p': "p < length (columns ?d)" using p by (simp add: getitem_mask_def)
  have at': "columns ?d ! p = (k, s')"
    using p at by (simp add: getitem_mask_def s')
  have wf': "wf_frame ?d" using assms(1) by (rule wf_frame_getitem_mask)
  have "cells s' = map (\<lambda>r. r ! p) (rows ?d)"
    using cells_as_rows [OF wf' p'] by (simp add: at')
  moreover have "cells s = map (\<lambda>r. r ! p) (rows df)"
    using cells_as_rows [OF assms(1) p] by (simp add: at)
  moreover have "set (rows ?d) = set (rows df)"
    using set_rows_drop_duplicates [OF assms(1)] by (simp add: d)
  ultimately show ?thesis by simp
qed

lemma str_replace_unparsable:
  "(\<exists>c \<in> set (cells (str_replace s ''$'' [])). to_float c = None) \<longleftrightarrow>
   (\<exists>x. CStr x \<in> set (cells s) \<and> py_float (filter (\<lambda>a. a \<noteq> CHR ''$'') x) = None)"
proof
  assume "\<exists>c \<in> set (cells (str_replace s ''$'' [])). to_float c = None"
  then obtain c0 where c0: "c0 \<in> set (cells s)"
    and none: "to_float (case c0 of CStr x \<Rightarrow> CStr (filter (\<lambda>a. a \<noteq> CHR ''$'') x) | _ \<Rightarrow> CNA) = None"
    by (auto simp: cells_str_replace)
  show "\<exists>x. CStr x \<in> set (cells s) \<and> py_float (filter (\<lambda>a. a \<noteq> CHR ''$'') x) = None"
  proof (cases c0)
    case (CStr x)
    with none have "py_float (filter (\<lambda>a. a \<noteq> CHR ''$'') x) = None" by simp
    with c0 CStr show ?thesis by blast
  qed (use none in simp_all)
next
  assume "\<exists>x. CStr x \<in> set (cells s) \<and> py_float (filter (\<lambda>a. a \<noteq> CHR ''$'') x) = None"
  then obtain x where "CStr x \<in> set (cells s)"
    and "py_float (filter (\<lambda>a. a \<noteq> CHR ''$'') x) = None" by blast
  then show "\<exists>c \<in> set (cells (str_replace s ''$'' [])). to_float c = None"
    by (force simp: cells_str_replace image_iff)
qed

lemma coerced_cells:
  assumes "astype_float (str_replace b ''$'' []) = Inr b2"
  shows "dtype b2 = Float64" and "length (cells b2) = length (cells b)"
    and "\<forall>i < length (cells b). \<exists>f. cells b2 ! i = CFloat f \<and>
          (case cells b ! i of
             CStr s \<Rightarrow> py_float (filter (\<lambda>a. a \<noteq> CHR ''$'') s) = Some f
           | _ \<Rightarrow> f = NaN)"
proof -
  show "dtype b2 = Float64" using astype_float_Inr(1) [OF assms] .
  show len: "length (cells b2) = length (cells b)"
    using astype_float_Inr(2) [OF assms] by (simp add: str_replace_def)
  show "\<forall>i < length (cells b). \<exists>f. cells b2 ! i = CFloat f \<and>
          (case cells b ! i of
             CStr s \<Rightarrow> py_float (filter (\<lambda>a. a \<noteq> CHR ''$'') s) = Some f
           | _ \<Rightarrow> f = NaN)"
  proof (intro allI impI)
    fix i assume i: "i < length (cells b)"
    then have "i < length (cells (str_replace b ''$'' []))" by (simp add: str_replace_def)
    with astype_float_Inr(3) [OF assms] obtain f
      where f: "to_float (cells (str_replace b ''$'' []) ! i) = Some f"
        and c: "cells b2 ! i = CFloat f" by blast
    from f i have "case cells b ! i of
             CStr s \<Rightarrow> py_float (filter (\<lambda>a. a \<noteq> CHR ''$'') s) = Some f
           | _ \<Rightarrow> f = NaN"
      by (cases "cells b ! i") (auto simp: cells_str_replace)
    with c show "\<exists>f. cells b2 ! i = CFloat f \<and>
          (case cells b ! i of
             CStr s \<Rightarrow> py_float (filter (\<lambda>a. a \<noteq> CHR ''$'') s) = Some f
           | _ \<Rightarrow> f = NaN)" by blast
  qed
qed

lemma getitem_Inl: "getitem df k = Inl e \<Longrightarrow> e = KeyError k"
  by (simp add: getitem_def split: option.splits)

subsection \<open>Evaluation on the example frames\<close>

lemmas frame_defs =
  data_transformation_def alloc_def drop_duplicates_def empty_def getitem_mask_def
  duplicated_def rows_def row_def nrows_def getitem_def setitem_def str_accessor_def
  str_replace_def replace_single astype_float_def series_add_def result_dtype_def
  wf_frame_def wf_series_def

lemma py_float_100: "py_float ''100'' = Some (Fin 100)"
  by (simp add: py_float_defs round64_numeral)

lemma py_float_200: "py_float ''200'' = Some (Fin 200)"
  by (simp add: py_float_defs round64_numeral)

lemma py_float_abc: "py_float ''abc'' = None"
  by (simp add: py_float_defs)

lemma py_float_inner_dollar: "py_float ''1$00'' = None"
  by (simp add: py_float_defs)

lemmas float_evals =
  py_float_100 py_float_200 py_float_abc py_float_inner_dollar float_of_int_numeral
  round64_numeral

section \<open>The claims\<close>

text \<open>
  C9: \<open>data_transformation\<close> leaves its argument unchanged. For every heap and
  every reference \<open>data\<close> to an object of it, the object at \<open>data\<close> is the same after
  the call, whether the call returns or raises, and so is every other object that
  existed before; the frame returned is a new object.
\<close>

theorem data_transformation_argument_unchanged:
  assumes "data < length h"
  shows "fst (data_transformation h data) ! data = h ! data
    \<and> take (length h) (fst (data_transformation h data)) = h
    \<and> (\<forall>h' r. data_transformation h data = (h', Inr r) \<longrightarrow> r \<noteq> data \<and> r = length h)"
proof -
  obtain df where new: "fst (data_transformation h data) = h @ [df]"
    using data_transformation_heap by blast
  have "fst (data_transformation h data) ! data = h ! data"
    using assms by (simp add: new nth_append)
  moreover have "take (length h) (fst (data_transformation h data)) = h"
    by (simp add: new)
  moreover have "r \<noteq> data \<and> r = length h"
    if "data_transformation h data = (h', Inr r)" for h' r
    using that assms by (auto elim: data_transformation_Inr)
  ultimately show ?thesis by blast
qed

theorem data_transformation_argument_unchanged_witness:
  "(0::nat) < length [billing_data]
    \<and> data_transformation [billing_data] 0 = ([billing_data, transformed_data], Inr 1)
    \<and> fst (data_transformation [billing_data] 0) ! 0 = billing_data
    \<and> take 1 (fst (data_transformation [billing_data] 0)) = [billing_data]"
proof -
  have run: "data_transformation [billing_data] 0 = ([billing_data, transformed_data], Inr 1)"
    by (simp add: billing_data_def transformed_data_def frame_defs float_evals)
  have "(0::nat) < length [billing_data]" by simp
  from data_transformation_argument_unchanged [OF this] run show ?thesis by simp
qed

text \<open>
  C3, evaluated on the code: for the frame without rows and columns the first line
  returns a copy, and the lookup of \<open>billing_amount\<close> in it raises \<open>KeyError\<close>.
\<close>

theorem data_transformation_empty_data:
  "data_transformation [empty_data] 0 = ([empty_data, empty_data], Inl (KeyError ''billing_amount''))"
  by (simp add: empty_data_def frame_defs)



text \<open>
  C2, as stated, fails: a frame with rows that lacks \<open>tax_amount\<close> and whose
  \<open>billing_amount\<close> holds numbers (as the frame of the loading test does) raises
  \<open>AttributeError\<close> at the string accessor of line 39, before \<open>tax_amount\<close> is looked
  up in line 40.
\<close>

theorem missing_tax_amount_counterexample:
  "index numeric_billing_data \<noteq> []
    \<and> getitem numeric_billing_data ''tax_amount'' = Inl (KeyError ''tax_amount'')
    \<and> snd (data_transformation [numeric_billing_data] 0) = Inl AttributeError
    \<and> snd (data_transformation [numeric_billing_data] 0) \<noteq> Inl (KeyError ''tax_amount'')"
  by (simp add: numeric_billing_data_def frame_defs)

text \<open>
  C2, amended: for every frame with rows, \<open>data_transformation\<close> returns no frame when
  \<open>billing_amount\<close> or \<open>tax_amount\<close> is absent. Without \<open>billing_amount\<close> it raises
  \<open>KeyError\<close>. With \<open>billing_amount\<close> and without \<open>tax_amount\<close> it raises the error of
  line 39 when that line fails (\<open>AttributeError\<close> for a column that is not of strings,
  \<open>ValueError\<close> for a string that is no float once every \<open>$\<close> is removed), and
  \<open>KeyError\<close> otherwise.
\<close>

theorem missing_column_error:
  assumes "wf_frame (h ! data)" and "index (h ! data) \<noteq> []"
  shows "(\<forall>e. getitem (h ! data) ''billing_amount'' = Inl e \<longrightarrow>
            snd (data_transformation h data) = Inl (KeyError ''billing_amount''))
    \<and> (\<forall>b e. getitem (h ! data) ''billing_amount'' = Inr b
              \<and> getitem (h ! data) ''tax_amount'' = Inl e \<longrightarrow>
            snd (data_transformation h data) =
              Inl (if dtype b \<noteq> Object then AttributeError
                   else if \<exists>s. CStr s \<in> set (cells b)
                             \<and> py_float (filter (\<lambda>a. a \<noteq> CHR ''$'') s) = None
                   then ValueError
                   else KeyError ''tax_amount''))"
proof (intro conjI allI impI)
  let ?d = "drop_duplicates (h ! data)"
  fix e assume "getitem (h ! data) ''billing_amount'' = Inl e"
  then have "getitem ?d ''billing_amount'' = Inl (KeyError ''billing_amount'')"
    using getitem_Inl getitem_drop_duplicates_Inl by blast
  then show "snd (data_transformation h data) = Inl (KeyError ''billing_amount'')"
    by (simp add: data_transformation_eq)
next
  let ?d = "drop_duplicates (h ! data)"
  fix b e
  assume "getitem (h ! data) ''billing_amount'' = Inr b
    \<and> getitem (h ! data) ''tax_amount'' = Inl e"
  then have b: "getitem (h ! data) ''billing_amount'' = Inr b"
    and tax: "getitem (h ! data) ''tax_amount'' = Inl e" by simp_all
  from getitem_drop_duplicates_Inr [OF b] obtain b'
    where b': "getitem ?d ''billing_amount'' = Inr b'" and dt: "dtype b' = dtype b" by blast
  have cells: "set (cells b') = set (cells b)"
    using assms(1) b b' by (rule set_cells_drop_duplicates)
  have tax': "getitem ?d ''tax_amount'' = Inl (KeyError ''tax_amount'')"
    using tax getitem_Inl getitem_drop_duplicates_Inl by blast
  let ?bad = "\<exists>s. CStr s \<in> set (cells b) \<and> py_float (filter (\<lambda>a. a \<noteq> CHR ''$'') s) = None"
  have bad: "(\<exists>c \<in> set (cells (str_replace b' ''$'' [])). to_float c = None) \<longleftrightarrow> ?bad"
    by (simp only: str_replace_unparsable cells)
  show "snd (data_transformation h data) =
      Inl (if dtype b \<noteq> Object then AttributeError
           else if ?bad then ValueError else KeyError ''tax_amount'')"
  proof (cases "astype_float (str_replace b' ''$'' [])")
    case (Inl e')
    then have "e' = ValueError" and "?bad"
      using bad by (simp_all add: astype_float_Inl)
    with Inl b' dt show ?thesis by (simp add: data_transformation_eq)
  next
    case (Inr b2)
    have good: "\<not> ?bad"
    proof
      assume "?bad"
      with bad have "astype_float (str_replace b' ''$'' []) = Inl ValueError"
        by (simp add: astype_float_Inl)
      with Inr show False by simp
    qed
    have "snd (data_transformation h data) =
        Inl (if dtype b \<noteq> Object then AttributeError else KeyError ''tax_amount'')"
      using Inr b' dt tax' by (simp add: data_transformation_eq)
    then show ?thesis by (simp only: good if_False)
  qed
qed

theorem missing_column_error_witness:
  "wf_frame ([missing_columns_data] ! 0) \<and> index ([missing_columns_data] ! 0) \<noteq> []
    \<and> getitem missing_columns_data ''billing_amount'' = Inl (KeyError ''billing_amount'')
    \<and> snd (data_transformation [missing_columns_data] 0) = Inl (KeyError ''billing_amount'')
    \<and> wf_frame ([missing_tax_data] ! 0) \<and> index ([missing_tax_data] ! 0) \<noteq> []
    \<and> getitem missing_tax_data ''tax_amount'' = Inl (KeyError ''tax_amount'')
    \<and> snd (data_transformation [missing_tax_data] 0) = Inl (KeyError ''tax_amount'')
    \<and> wf_frame ([bad_amount_data] ! 0) \<and> index ([bad_amount_data] ! 0) \<noteq> []
    \<and> getitem bad_amount_data ''tax_amount'' = Inl (KeyError ''tax_amount'')
    \<and> snd (data_transformation [bad_amount_data] 0) = Inl ValueError"
proof -
  have wf1: "wf_frame ([missing_columns_data] ! 0)"
    and ne1: "index ([missing_columns_data] ! 0) \<noteq> []"
    and g1: "getitem ([missing_columns_data] ! 0) ''billing_amount''
               = Inl (KeyError ''billing_amount'')"
    by (simp_all add: missing_columns_data_def frame_defs)
  have wf2: "wf_frame ([missing_tax_data] ! 0)"
    and ne2: "index ([missing_tax_data] ! 0) \<noteq> []"
    and b2: "getitem ([missing_tax_data] ! 0) ''billing_amount''
               = Inr \<lparr>dtype = Object, cells = [CStr ''$100'']\<rparr>"
    and g2: "getitem ([missing_tax_data] ! 0) ''tax_amount'' = Inl (KeyError ''tax_amount'')"
    by (simp_all add: missing_tax_data_def frame_defs)
  have wf3: "wf_frame ([bad_amount_data] ! 0)"
    and ne3: "index ([bad_amount_data] ! 0) \<noteq> []"
    and b3: "getitem ([bad_amount_data] ! 0) ''billing_amount''
               = Inr \<lparr>dtype = Object, cells = [CStr ''abc'']\<rparr>"
    and g3: "getitem ([bad_amount_data] ! 0) ''tax_amount'' = Inl (KeyError ''tax_amount'')"
    by (simp_all add: bad_amount_data_def frame_defs)
  have r1: "snd (data_transformation [missing_columns_data] 0) = Inl (KeyError ''billing_amount'')"
    using missing_column_error [OF wf1 ne1] g1 by blast
  have "snd (data_transformation [missing_tax_data] 0) =
      Inl (if dtype \<lparr>dtype = Object, cells = [CStr ''$100'']\<rparr> \<noteq> Object then AttributeError
           else if \<exists>s. CStr s \<in> set (cells \<lparr>dtype = Object, cells = [CStr ''$100'']\<rparr>)
                     \<and> py_float (filter (\<lambda>a. a \<noteq> CHR ''$'') s) = None
           then ValueError
           else KeyError ''tax_amount'')"
    using missing_column_error [OF wf2 ne2] b2 g2 by blast
  then have r2: "snd (data_transformation [missing_tax_data] 0) = Inl (KeyError ''tax_amount'')"
    by (simp add: float_evals)
  have "snd (data_transformation [bad_amount_data] 0) =
      Inl (if dtype \<lparr>dtype = Object, cells = [CStr ''abc'']\<rparr> \<noteq> Object then AttributeError
           else if \<exists>s. CStr s \<in> set (cells \<lparr>dtype = Object, cells = [CStr ''abc'']\<rparr>)
                     \<and> py_float (filter (\<lambda>a. a \<noteq> CHR ''$'') s) = None
           then ValueError
           else KeyError ''tax_amount'')"
    using missing_column_error [OF wf3 ne3] b3 g3 by blast
  then have r3: "snd (data_transformation [bad_amount_data] 0) = Inl ValueError"
    by (simp add: float_evals)
  from wf1 ne1 g1 r1 wf2 ne2 g2 r2 wf3 ne3 g3 r3 show ?thesis by simp
qed

text \<open>
  C5, as stated, fails: \<open>1$00\<close> is no float after a leading currency symbol is
  stripped (there is none to strip), so the claim has the transformation fail with a
  value conversion error; the code removes the \<open>$\<close> inside and returns a frame.
\<close>

theorem leading_currency_counterexample:
  "py_float (spec_strip_leading_currency ''1$00'') = None
    \<and> getitem inner_dollar_data ''billing_amount'' = Inr \<lparr>dtype = Object, cells = [CStr ''1$00'']\<rparr>
    \<and> snd (data_transformation [inner_dollar_data] 0) = Inr 1
    \<and> snd (data_transformation [inner_dollar_data] 0) \<noteq> Inl ValueError"
  by (simp add: inner_dollar_data_def spec_strip_leading_currency_def frame_defs float_evals)

text \<open>
  C5, amended: for every frame whose \<open>billing_amount\<close> is a column of strings (dtype
  \<open>object\<close>; a missing value counts as NaN), \<open>data_transformation\<close> raises \<open>ValueError\<close>
  exactly when one of the strings is no float once every \<open>$\<close> in it is removed; and
  when it returns, \<open>billing_amount\<close> of the result is a float column that holds, row by
  row of the deduplicated frame, the float read from the string without its \<open>$\<close>
  characters.
\<close>

theorem billing_amount_coercion:
  assumes "wf_frame (h ! data)"
    and "getitem (h ! data) ''billing_amount'' = Inr b"
    and "dtype b = Object"
  shows "(snd (data_transformation h data) = Inl ValueError \<longleftrightarrow>
           (\<exists>s. CStr s \<in> set (cells b) \<and> py_float (filter (\<lambda>a. a \<noteq> CHR ''$'') s) = None))
    \<and> (\<forall>h' r. data_transformation h data = (h', Inr r) \<longrightarrow>
          (\<exists>b' x. getitem (drop_duplicates (h ! data)) ''billing_amount'' = Inr b'
             \<and> getitem (h' ! r) ''billing_amount'' = Inr x
             \<and> dtype x = Float64 \<and> length (cells x) = length (cells b')
             \<and> (\<forall>i < length (cells b'). \<exists>f. cells x ! i = CFloat f \<and>
                   (case cells b' ! i of
                      CStr s \<Rightarrow> py_float (filter (\<lambda>a. a \<noteq> CHR ''$'') s) = Some f
                    | _ \<Rightarrow> f = NaN))))"
proof (intro conjI allI impI)
  let ?d = "drop_duplicates (h ! data)"
  let ?bad = "\<exists>s. CStr s \<in> set (cells b) \<and> py_float (filter (\<lambda>a. a \<noteq> CHR ''$'') s) = None"
  from getitem_drop_duplicates_Inr [OF assms(2)] obtain b'
    where b': "getitem ?d ''billing_amount'' = Inr b'" and dt: "dtype b' = Object"
    using assms(3) by auto
  have "set (cells b') = set (cells b)"
    using assms(1,2) b' by (rule set_cells_drop_duplicates)
  then have bad: "(\<exists>c \<in> set (cells (str_replace b' ''$'' [])). to_float c = None) \<longleftrightarrow> ?bad"
    by (simp only: str_replace_unparsable)
  show "snd (data_transformation h data) = Inl ValueError \<longleftrightarrow> ?bad"
  proof (cases "astype_float (str_replace b' ''$'' [])")
    case (Inl e)
    then have "e = ValueError" and "?bad" using bad by (simp_all add: astype_float_Inl)
    with Inl b' dt show ?thesis by (simp add: data_transformation_eq)
  next
    case (Inr b2)
    have good: "\<not> ?bad"
    proof
      assume "?bad"
      with bad have "astype_float (str_replace b' ''$'' []) = Inl ValueError"
        by (simp add: astype_float_Inl)
      with Inr show False by simp
    qed
    have "snd (data_transformation h data) \<noteq> Inl ValueError"
      using Inr b' dt
      by (auto simp: data_transformation_eq Let_def split: sum.splits
          dest: getitem_Inl series_add_Inl)
    with good show ?thesis by simp
  qed
next
  let ?d = "drop_duplicates (h ! data)"
  fix h' r assume "data_transformation h data = (h', Inr r)"
  then obtain b' b2 and y :: series and t where
    b': "getitem ?d ''billing_amount'' = Inr b'"
    and b2: "astype_float (str_replace b' ''$'' []) = Inr b2"
    and h': "h' = h @ [setitem (setitem ?d ''billing_amount'' b2) ''total_charges'' t]"
    and r: "r = length h"
    by (rule data_transformation_Inr)
  have "getitem (h' ! r) ''billing_amount'' = Inr b2"
    by (simp add: h' r getitem_setitem)
  with b' coerced_cells [OF b2]
  show "\<exists>b' x. getitem ?d ''billing_amount'' = Inr b'
      \<and> getitem (h' ! r) ''billing_amount'' = Inr x
      \<and> dtype x = Float64 \<and> length (cells x) = length (cells b')
      \<and> (\<forall>i < length (cells b'). \<exists>f. cells x ! i = CFloat f \<and>
            (case cells b' ! i of
               CStr s \<Rightarrow> py_float (filter (\<lambda>a. a \<noteq> CHR ''$'') s) = Some f
             | _ \<Rightarrow> f = NaN))"
    by blast
qed

theorem billing_amount_coercion_witness:
  "wf_frame ([bad_amount_data] ! 0)
    \<and> getitem ([bad_amount_data] ! 0) ''billing_amount'' = Inr \<lparr>dtype = Object, cells = [CStr ''abc'']\<rparr>
    \<and> py_float (filter (\<lambda>a. a \<noteq> CHR ''$'') ''abc'') = None
    \<and> snd (data_transformation [bad_amount_data] 0) = Inl ValueError
    \<and> wf_frame ([billing_data] ! 0)
    \<and> data_transformation [billing_data] 0 = ([billing_data, transformed_data], Inr 1)
    \<and> getitem transformed_data ''billing_amount''
        = Inr \<lparr>dtype = Float64, cells = [CFloat (Fin 100), CFloat (Fin 200)]\<rparr>
    \<and> snd (data_transformation [billing_data] 0) \<noteq> Inl ValueError"
proof -
  let ?bad = "\<lparr>dtype = Object, cells = [CStr ''abc'']\<rparr>"
  let ?good = "\<lparr>dtype = Object, cells = [CStr ''$100'', CStr ''$200'']\<rparr>"
  have wf1: "wf_frame ([bad_amount_data] ! 0)"
    and g1: "getitem ([bad_amount_data] ! 0) ''billing_amount'' = Inr ?bad"
    by (simp_all add: bad_amount_data_def frame_defs)
  have abc: "py_float (filter (\<lambda>a. a \<noteq> CHR ''$'') ''abc'') = None"
    by (simp add: float_evals)
  have wf2: "wf_frame ([billing_data] ! 0)"
    and g2: "getitem ([billing_data] ! 0) ''billing_amount'' = Inr ?good"
    by (simp_all add: billing_data_def frame_defs)
  have run: "data_transformation [billing_data] 0 = ([billing_data, transformed_data], Inr 1)"
    by (simp add: billing_data_def transformed_data_def frame_defs float_evals)
  have out: "getitem transformed_data ''billing_amount''
      = Inr \<lparr>dtype = Float64, cells = [CFloat (Fin 100), CFloat (Fin 200)]\<rparr>"
    by (simp add: transformed_data_def getitem_def)
  have "snd (data_transformation [bad_amount_data] 0) = Inl ValueError \<longleftrightarrow>
      (\<exists>s. CStr s \<in> set (cells ?bad) \<and> py_float (filter (\<lambda>a. a \<noteq> CHR ''$'') s) = None)"
    using billing_amount_coercion [OF wf1 g1] by simp
  with abc have r1: "snd (data_transformation [bad_amount_data] 0) = Inl ValueError" by simp
  have "snd (data_transformation [billing_data] 0) = Inl ValueError \<longleftrightarrow>
      (\<exists>s. CStr s \<in> set (cells ?good) \<and> py_float (filter (\<lambda>a. a \<noteq> CHR ''$'') s) = None)"
    using billing_amount_coercion [OF wf2 g2] by simp
  then have r2: "snd (data_transformation [billing_data] 0) \<noteq> Inl ValueError"
    by (auto simp: float_evals)
  from wf1 g1 abc r1 wf2 run out r2 show ?thesis by simp
qed



text \<open>
  C10: \<open>data_transformation\<close> needs \<open>billing_amount\<close> to be a column of strings. On a
  frame whose \<open>billing_amount\<close> is numeric it raises \<open>AttributeError\<close>, and so it does on
  every frame it has returned itself.
\<close>

theorem numeric_billing_amount_rejected:
  "(\<forall>b. getitem (h ! data) ''billing_amount'' = Inr b \<and> dtype b \<noteq> Object \<longrightarrow>
        snd (data_transformation h data) = Inl AttributeError)
    \<and> (\<forall>h' r. data_transformation h data = (h', Inr r) \<longrightarrow>
        snd (data_transformation h' r) = Inl AttributeError)"
proof -
  have numeric: "snd (data_transformation h data) = Inl AttributeError"
    if "getitem (h ! data) ''billing_amount'' = Inr b" and "dtype b \<noteq> Object" for h data b
  proof -
    from getitem_drop_duplicates_Inr [OF that(1)] obtain b'
      where "getitem (drop_duplicates (h ! data)) ''billing_amount'' = Inr b'"
        and "dtype b' = dtype b" by blast
    with that(2) show ?thesis by (simp add: data_transformation_eq)
  qed
  have "snd (data_transformation h' r) = Inl AttributeError"
    if "data_transformation h data = (h', Inr r)" for h' r
  proof -
    let ?d = "drop_duplicates (h ! data)"
    from that obtain b b2 and y :: series and t where
      b2: "astype_float (str_replace b ''$'' []) = Inr b2"
      and h': "h' = h @ [setitem (setitem ?d ''billing_amount'' b2) ''total_charges'' t]"
      and r: "r = length h"
      by (rule data_transformation_Inr)
    have "getitem (h' ! r) ''billing_amount'' = Inr b2"
      by (simp add: h' r getitem_setitem)
    moreover have "dtype b2 \<noteq> Object" using astype_float_Inr(1) [OF b2] by simp
    ultimately show ?thesis by (rule numeric)
  qed
  with numeric show ?thesis by blast
qed

theorem numeric_billing_amount_rejected_witness:
  "getitem ([numeric_billing_data] ! 0) ''billing_amount''
     = Inr \<lparr>dtype = Int64, cells = [CInt 100, CInt 200, CInt 300]\<rparr>
    \<and> snd (data_transformation [numeric_billing_data] 0) = Inl AttributeError
    \<and> data_transformation [billing_data] 0 = ([billing_data, transformed_data], Inr 1)
    \<and> snd (data_transformation [billing_data, transformed_data] 1) = Inl AttributeError"
proof -
  have g: "getitem ([numeric_billing_data] ! 0) ''billing_amount''
     = Inr \<lparr>dtype = Int64, cells = [CInt 100, CInt 200, CInt 300]\<rparr>"
    by (simp add: numeric_billing_data_def getitem_def)
  have run: "data_transformation [billing_data] 0 = ([billing_data, transformed_data], Inr 1)"
    by (simp add: billing_data_def transformed_data_def frame_defs float_evals)
  have "snd (data_transformation [numeric_billing_data] 0) = Inl AttributeError"
    using numeric_billing_amount_rejected [of "[numeric_billing_data]" 0] g by simp
  moreover have "snd (data_transformation [billing_data, transformed_data] 1) = Inl AttributeError"
    using numeric_billing_amount_rejected [of "[billing_data]" 0] run by blast
  ultimately show ?thesis using g run by simp
qed

text \<open>
  C4, as stated, fails: two rows that differ in the spelling of the amount only (\<open>$100\<close>
  and \<open>100\<close>) both pass the deduplication of line 38 and are equal across all columns
  after the coercion of line 39.
\<close>

theorem duplicate_rows_counterexample:
  "snd (data_transformation [same_amount_data] 0) = Inr 1
    \<and> rows (fst (data_transformation [same_amount_data] 0) ! 1) =
        [[CInt 1, CFloat (Fin 100), CInt 10, CFloat (Fin 110)],
         [CInt 1, CFloat (Fin 100), CInt 10, CFloat (Fin 110)]]
    \<and> row (fst (data_transformation [same_amount_data] 0) ! 1) 0 =
        row (fst (data_transformation [same_amount_data] 0) ! 1) 1"
  by (simp add: same_amount_data_def frame_defs float_evals)

text \<open>
  C4, amended: the rows of the frame returned are, one for one and in order, the rows
  that the deduplication of the input keeps, and no two of those are equal across all
  columns of the input. So two rows of the result are equal across all columns only if
  they differed, before the transformation, in a column that it overwrites:
  \<open>billing_amount\<close> (two strings that give the same float) or a \<open>total_charges\<close> that the
  input had already.
\<close>

theorem equal_rows_differ_before_coercion:
  assumes "wf_frame (h ! data)"
    and "data_transformation h data = (h', Inr r)"
  shows "distinct (rows (drop_duplicates (h ! data)))
    \<and> nrows (h' ! r) = nrows (drop_duplicates (h ! data))
    \<and> (\<forall>i j. i < j \<and> j < nrows (h' ! r) \<and> row (h' ! r) i = row (h' ! r) j \<longrightarrow>
          (\<exists>k s. (k = ''billing_amount'' \<or> k = ''total_charges'')
             \<and> getitem (drop_duplicates (h ! data)) k = Inr s
             \<and> cells s ! i \<noteq> cells s ! j))"
proof -
  let ?d = "drop_duplicates (h ! data)"
  from assms(2) obtain b b2 and y :: series and t where
    b: "getitem ?d ''billing_amount'' = Inr b"
    and h': "h' = h @ [setitem (setitem ?d ''billing_amount'' b2) ''total_charges'' t]"
    and r: "r = length h"
    by (rule data_transformation_Inr)
  let ?out = "setitem (setitem ?d ''billing_amount'' b2) ''total_charges'' t"
  have out: "h' ! r = ?out" by (simp add: h' r)
  have wf: "wf_frame ?d" using assms(1) by (rule wf_frame_drop_duplicates)
  then have names: "distinct (map fst (columns ?d))" by (simp add: wf_frame_def)
  from b have "columns ?d \<noteq> []" by (auto simp: getitem_def)
  moreover from b have "columns (h ! data) \<noteq> []"
    by (auto simp: drop_duplicates_def getitem_def getitem_mask_def split: if_splits)
  ultimately have dist: "distinct (rows ?d)"
    using distinct_rows_drop_duplicates [OF assms(1)] by blast
  have n: "nrows ?out = nrows ?d" by simp
  have "\<exists>k s. (k = ''billing_amount'' \<or> k = ''total_charges'')
      \<and> getitem ?d k = Inr s \<and> cells s ! i \<noteq> cells s ! j"
    if ij: "i < j" "j < nrows ?out" and eq: "row ?out i = row ?out j" for i j
  proof (rule ccontr)
    assume "\<not> ?thesis"
    then have same: "cells s ! i = cells s ! j"
      if "k = ''billing_amount'' \<or> k = ''total_charges''" and "getitem ?d k = Inr s" for k s
      using that by blast
    have "cells (snd c) ! i = cells (snd c) ! j" if c: "c \<in> set (columns ?d)" for c
    proof (cases "fst c = ''billing_amount'' \<or> fst c = ''total_charges''")
      case True
      have "getitem ?d (fst c) = Inr (snd c)"
        using names c by (intro getitem_member) simp_all
      with True show ?thesis by (rule same)
    next
      case False
      then have "c \<in> set (columns ?out)"
        using c by (intro columns_setitem_other) simp_all
      with eq show ?thesis by (rule row_eq_cells)
    qed
    then have "row ?d i = row ?d j" by (simp add: row_def)
    moreover have "rows ?d ! i = row ?d i" "rows ?d ! j = row ?d j"
      using ij by (simp_all add: rows_def)
    ultimately have "rows ?d ! i = rows ?d ! j" by simp
    moreover have "i < length (rows ?d)" "j < length (rows ?d)" "i \<noteq> j"
      using ij by (simp_all add: rows_def)
    ultimately show False using dist nth_eq_iff_index_eq by blast
  qed
  with dist n show ?thesis unfolding out by blast
qed

theorem equal_rows_differ_before_coercion_witness:
  "wf_frame ([same_amount_data] ! 0)
    \<and> snd (data_transformation [same_amount_data] 0) = Inr 1
    \<and> row (fst (data_transformation [same_amount_data] 0) ! 1) 0 =
        row (fst (data_transformation [same_amount_data] 0) ! 1) 1
    \<and> distinct (rows (drop_duplicates same_amount_data))
    \<and> (\<exists>k s. (k = ''billing_amount'' \<or> k = ''total_charges'')
          \<and> getitem (drop_duplicates same_amount_data) k = Inr s
          \<and> cells s ! 0 \<noteq> cells s ! 1)"
proof -
  obtain h' where run: "data_transformation [same_amount_data] 0 = (h', Inr 1)"
    and eq: "row (h' ! 1) 0 = row (h' ! 1) 1" and n: "nrows (h' ! 1) = 2"
    by (simp add: same_amount_data_def frame_defs float_evals)
  have wf: "wf_frame ([same_amount_data] ! 0)"
    by (simp add: same_amount_data_def frame_defs)
  from equal_rows_differ_before_coercion [OF wf run]
  have "distinct (rows (drop_duplicates same_amount_data))"
    and "\<forall>i j. i < j \<and> j < nrows (h' ! 1) \<and> row (h' ! 1) i = row (h' ! 1) j \<longrightarrow>
          (\<exists>k s. (k = ''billing_amount'' \<or> k = ''total_charges'')
             \<and> getitem (drop_duplicates same_amount_data) k = Inr s
             \<and> cells s ! i \<noteq> cells s ! j)"
    by simp_all
  moreover have "(0::nat) < 1 \<and> 1 < nrows (h' ! 1) \<and> row (h' ! 1) 0 = row (h' ! 1) 1"
    using eq n by simp
  ultimately have "distinct (rows (drop_duplicates same_amount_data))
    \<and> (\<exists>k s. (k = ''billing_amount'' \<or> k = ''total_charges'')
          \<and> getitem (drop_duplicates same_amount_data) k = Inr s
          \<and> cells s ! 0 \<noteq> cells s ! 1)"
    by blast
  with wf run eq show ?thesis by simp
qed

text \<open>
  C6, evaluated on the code: for a file without content \<open>read_csv\<close> raises
  \<open>EmptyDataError\<close>, whatever the parser does on files with content, and
  \<open>data_extraction\<close> returns no frame.
\<close>

theorem data_extraction_empty_file:
  "data_extraction parse \<lparr>files = [''empty_file.csv'' \<mapsto> []], writable = w\<rparr> h ''empty_file.csv''
     = (h, Inl EmptyDataError)"
  by (simp add: data_extraction_def read_csv_def)

text \<open>
  C7: for every frame without rows and every path that can be written,
  \<open>data_loading\<close> raises nothing and leaves a file that holds the header line and
  nothing else; with no columns either, the header line is empty and the file is the
  line terminator alone. No other file changes.
\<close>

theorem data_loading_empty_table:
  assumes "nrows (h ! data) = 0" and "writable fs output_file"
  shows "\<exists>fs'. data_loading fmt h data fs output_file = Inr fs'
    \<and> files fs' output_file = Some (csv_row (map fst (columns (h ! data))))
    \<and> (columns (h ! data) = [] \<longrightarrow> files fs' output_file = Some linesep)
    \<and> (\<forall>p. p \<noteq> output_file \<longrightarrow> files fs' p = files fs p)"
proof -
  have "to_csv fmt (h ! data) = csv_row (map fst (columns (h ! data)))"
    using assms(1) by (simp add: to_csv_def)
  moreover have "csv_row [] = linesep" by (simp add: csv_row_def)
  ultimately show ?thesis using assms(2) by (simp add: data_loading_def)
qed

theorem data_loading_empty_table_witness:
  "nrows ([no_rows_data, empty_data] ! 0) = 0 \<and> nrows ([no_rows_data, empty_data] ! 1) = 0
    \<and> writable \<lparr>files = Map.empty, writable = (\<lambda>p. p = ''transformed_data.csv'')\<rparr>
         ''transformed_data.csv''
    \<and> (\<exists>fs'. data_loading (\<lambda>f. []) [no_rows_data, empty_data] 0
               \<lparr>files = Map.empty, writable = (\<lambda>p. p = ''transformed_data.csv'')\<rparr>
               ''transformed_data.csv'' = Inr fs'
          \<and> files fs' ''transformed_data.csv'' = Some (''customer_id,total_charges'' @ linesep))
    \<and> (\<exists>fs'. data_loading (\<lambda>f. []) [no_rows_data, empty_data] 1
               \<lparr>files = Map.empty, writable = (\<lambda>p. p = ''transformed_data.csv'')\<rparr>
               ''transformed_data.csv'' = Inr fs'
          \<and> files fs' ''transformed_data.csv'' = Some linesep)"
proof -
  let ?h = "[no_rows_data, empty_data]"
  let ?fs = "\<lparr>files = Map.empty, writable = (\<lambda>p. p = ''transformed_data.csv'')\<rparr>"
  have n0: "nrows (?h ! 0) = 0" and n1: "nrows (?h ! 1) = 0"
    by (simp_all add: no_rows_data_def empty_data_def nrows_def)
  have w: "writable ?fs ''transformed_data.csv''" by simp
  have hdr: "csv_row (map fst (columns (?h ! 0))) = ''customer_id,total_charges'' @ linesep"
    by (simp add: no_rows_data_def csv_row_def csv_field_def needs_quote_def)
  have nocol: "columns (?h ! 1) = []" by (simp add: empty_data_def)
  from data_loading_empty_table [OF n0 w, of "\<lambda>f. []"] hdr
  have "\<exists>fs'. data_loading (\<lambda>f. []) ?h 0 ?fs ''transformed_data.csv'' = Inr fs'
      \<and> files fs' ''transformed_data.csv'' = Some (''customer_id,total_charges'' @ linesep)"
    by auto
  moreover from data_loading_empty_table [OF n1 w, of "\<lambda>f. []"] nocol
  have "\<exists>fs'. data_loading (\<lambda>f. []) ?h 1 ?fs ''transformed_data.csv'' = Inr fs'
      \<and> files fs' ''transformed_data.csv'' = Some linesep"
    by auto
  ultimately show ?thesis using n0 n1 w by blast
qed

end
